theory Spec2Isabelle
  imports Main
begin

section \<open>The Fibonacci generator of \<^verbatim>\<open>fibonacci.py\<close>\<close>

text \<open>
  Python integers are unbounded, so the argument and the elements of the list are
  of type \<^typ>\<open>int\<close>. An exception is a value: \<open>Inl\<close> carries the exception, \<open>Inr\<close> the
  returned list. The function has one \<^verbatim>\<open>raise\<close> statement (\<^verbatim>\<open>ValueError\<close>); the two
  subscripts in the loop body can raise \<^verbatim>\<open>IndexError\<close>, which is kept in the model so
  that its absence is a theorem and not an assumption.
\<close>

datatype error = ValueError | IndexError

text \<open>
  \<^verbatim>\<open>xs[i]\<close> on a Python list: an index from \<open>0\<close> to \<open>len - 1\<close> reads from the front, an
  index from \<open>-len\<close> to \<open>-1\<close> reads from the back, any other index raises.
\<close>

definition getitem :: "int list \<Rightarrow> int \<Rightarrow> error + int" where
  "getitem xs i =
     (if 0 \<le> i \<and> i < int (length xs) then Inr (xs ! nat i)
      else if i < 0 \<and> - int (length xs) \<le> i then Inr (xs ! nat (int (length xs) + i))
      else Inl IndexError)"

text \<open>\<^verbatim>\<open>range(a, b)\<close>: the integers from \<open>a\<close> up to and excluding \<open>b\<close>.\<close>

definition range_py :: "int \<Rightarrow> int \<Rightarrow> int list" where
  "range_py a b = [a..b - 1]"

text \<open>
  The loop body \<^verbatim>\<open>fib_sequence.append(fib_sequence[i-1] + fib_sequence[i-2])\<close>: the left
  operand is read first, then the right one, then the sum is appended.
\<close>

definition loop_body :: "int \<Rightarrow> int list \<Rightarrow> error + int list" where
  "loop_body i fib_sequence =
     (case getitem fib_sequence (i - 1) of
        Inl e \<Rightarrow> Inl e
      | Inr a \<Rightarrow>
          (case getitem fib_sequence (i - 2) of
             Inl e \<Rightarrow> Inl e
           | Inr b \<Rightarrow> Inr (fib_sequence @ [a + b])))"

text \<open>
  \<^verbatim>\<open>for i in range(2, n): ...\<close> as recursion over the indices still to visit, threading
  the list; an exception in the body leaves the loop.
\<close>

fun for_loop :: "int list \<Rightarrow> int list \<Rightarrow> error + int list" where
  "for_loop [] fib_sequence = Inr fib_sequence"
| "for_loop (i # rest) fib_sequence =
     (case loop_body i fib_sequence of
        Inl e \<Rightarrow> Inl e
      | Inr fib_sequence' \<Rightarrow> for_loop rest fib_sequence')"

definition fibonacci :: "int \<Rightarrow> error + int list" where
  "fibonacci n =
     (if n < 0 then Inl ValueError
      else if n = 0 then Inr []
      else if n = 1 then Inr [0]
      else if n = 2 then Inr [0, 1]
      else for_loop (range_py 2 n) [0, 1])"

text \<open>
  The loop invariant: after the loop has visited every index below \<open>n\<close>, the list has
  \<open>n\<close> elements, starts with \<open>0, 1\<close>, and every later element is the sum of its two
  predecessors.
\<close>

definition fib_inv :: "int \<Rightarrow> int list \<Rightarrow> bool" where
  "fib_inv n fs \<longleftrightarrow>
     int (length fs) = n \<and> fs ! 0 = 0 \<and> fs ! 1 = 1 \<and>
     (\<forall>i. 2 \<le> i \<and> i < length fs \<longrightarrow> fs ! i = fs ! (i - 1) + fs ! (i - 2))"


section \<open>The loop\<close>

lemma for_loop_append:
  "for_loop (is @ js) fs =
     (case for_loop is fs of Inl e \<Rightarrow> Inl e | Inr fs' \<Rightarrow> for_loop js fs')"
  by (induction "is" arbitrary: fs) (auto split: sum.splits)

lemma for_loop_snoc:
  "for_loop (is @ [i]) fs =
     (case for_loop is fs of Inl e \<Rightarrow> Inl e | Inr fs' \<Rightarrow> loop_body i fs')"
  by (simp add: for_loop_append split: sum.splits)

lemma range_py_empty: "range_py 2 2 = []"
  by (simp add: range_py_def)

lemma range_py_snoc: "a \<le> b \<Longrightarrow> range_py a (b + 1) = range_py a b @ [b]"
  by (simp add: range_py_def upto_rec2)

text \<open>
  When the list has exactly \<open>i\<close> elements and \<open>i\<close> is at least 2, both subscripts of
  the body are in range: no \<^verbatim>\<open>IndexError\<close>, and the two last elements are read.
\<close>

lemma loop_body_ok:
  assumes "2 \<le> i" and "int (length fs) = i"
  shows "loop_body i fs = Inr (fs @ [fs ! (length fs - 1) + fs ! (length fs - 2)])"
proof -
  from assms have "nat (i - 1) = length fs - 1" "nat (i - 2) = length fs - 2" by auto
  with assms show ?thesis by (simp add: loop_body_def getitem_def)
qed

lemma fib_inv_init: "fib_inv 2 [0, 1]"
  by (simp add: fib_inv_def)

lemma fib_inv_step:
  assumes "2 \<le> n" and "fib_inv n fs"
  shows "fib_inv (n + 1) (fs @ [fs ! (length fs - 1) + fs ! (length fs - 2)])"
proof -
  let ?x = "fs ! (length fs - 1) + fs ! (length fs - 2)"
  from assms have len: "2 \<le> length fs" "int (length fs) = n" by (auto simp: fib_inv_def)
  have "(fs @ [?x]) ! i = (fs @ [?x]) ! (i - 1) + (fs @ [?x]) ! (i - 2)"
    if "2 \<le> i" "i < length (fs @ [?x])" for i
  proof (cases "i < length fs")
    case True
    then have "i - 1 < length fs" and "i - 2 < length fs" by arith+
    with True have "(fs @ [?x]) ! i = fs ! i" "(fs @ [?x]) ! (i - 1) = fs ! (i - 1)"
      "(fs @ [?x]) ! (i - 2) = fs ! (i - 2)"
      by (simp_all only: nth_append if_True)
    moreover from assms(2) that(1) True have "fs ! i = fs ! (i - 1) + fs ! (i - 2)"
      unfolding fib_inv_def by blast
    ultimately show ?thesis by simp
  next
    case False
    with that have i: "i = length fs" by simp
    with len have "i - 1 < length fs" and "i - 2 < length fs" by arith+
    then have "(fs @ [?x]) ! (i - 1) = fs ! (i - 1)" "(fs @ [?x]) ! (i - 2) = fs ! (i - 2)"
      by (simp_all only: nth_append if_True)
    moreover have "(fs @ [?x]) ! i = ?x" unfolding i by (rule nth_append_length)
    ultimately show ?thesis by (simp only: i)
  qed
  moreover from len have "0 < length fs" and "1 < length fs" by arith+
  then have "(fs @ [?x]) ! 0 = fs ! 0" "(fs @ [?x]) ! 1 = fs ! 1"
    by (simp_all only: nth_append if_True)
  with assms(2) have "(fs @ [?x]) ! 0 = 0" "(fs @ [?x]) ! 1 = 1"
    by (simp_all add: fib_inv_def)
  ultimately show ?thesis using len by (simp add: fib_inv_def)
qed

text \<open>One more index: the loop up to \<open>n + 1\<close> is the loop up to \<open>n\<close>, then one append.\<close>

lemma for_loop_step:
  assumes "2 \<le> n" and "for_loop (range_py 2 n) [0, 1] = Inr fs" and "fib_inv n fs"
  shows "for_loop (range_py 2 (n + 1)) [0, 1]
           = Inr (fs @ [fs ! (length fs - 1) + fs ! (length fs - 2)])"
proof -
  from assms(3) have "int (length fs) = n" by (simp add: fib_inv_def)
  with assms(1) have "loop_body n fs = Inr (fs @ [fs ! (length fs - 1) + fs ! (length fs - 2)])"
    by (rule loop_body_ok)
  with assms show ?thesis by (simp add: range_py_snoc for_loop_snoc)
qed

lemma for_loop_fib_inv:
  "2 \<le> n \<Longrightarrow> \<exists>fs. for_loop (range_py 2 n) [0, 1] = Inr fs \<and> fib_inv n fs"
proof (induction n rule: int_ge_induct)
  case base
  show ?case by (simp add: range_py_empty fib_inv_init)
next
  case (step k)
  then obtain fs where fs: "for_loop (range_py 2 k) [0, 1] = Inr fs" "fib_inv k fs" by blast
  from step(1) fs have "for_loop (range_py 2 (k + 1)) [0, 1]
      = Inr (fs @ [fs ! (length fs - 1) + fs ! (length fs - 2)])"
    by (rule for_loop_step)
  moreover from step(1) fs(2)
  have "fib_inv (k + 1) (fs @ [fs ! (length fs - 1) + fs ! (length fs - 2)])"
    by (rule fib_inv_step)
  ultimately show ?case by blast
qed

text \<open>
  From 2 on the function is the loop: for \<open>n = 2\<close> the range is empty and the loop
  returns its initial list, which is what the \<^verbatim>\<open>elif n == 2\<close> branch returns.
\<close>

lemma fibonacci_ge2: "2 \<le> n \<Longrightarrow> fibonacci n = for_loop (range_py 2 n) [0, 1]"
  by (simp add: fibonacci_def range_py_empty)

lemma fibonacci_fib_inv: "2 \<le> n \<Longrightarrow> \<exists>fs. fibonacci n = Inr fs \<and> fib_inv n fs"
  by (simp add: fibonacci_ge2 for_loop_fib_inv)


section \<open>The properties of \<^verbatim>\<open>fibonacci\<close>\<close>

text \<open>
  C1: for each \<open>n\<close> of 0, 1, 2, 5, 10 and 15, \<^verbatim>\<open>fibonacci(n)\<close> returns the first \<open>n\<close>
  Fibonacci numbers: the empty list, \<open>[0]\<close>, \<open>[0, 1]\<close>, \<open>[0, 1, 1, 2, 3]\<close>,
  \<open>[0, 1, 1, 2, 3, 5, 8, 13, 21, 34]\<close>, and for 15 the fifteen numbers from 0 to 377,
  a list that ends with 233, 377 (the values the unit tests assert).
\<close>

theorem fibonacci_test_values:
  "fibonacci 0 = Inr [] \<and>
   fibonacci 1 = Inr [0] \<and>
   fibonacci 2 = Inr [0, 1] \<and>
   fibonacci 5 = Inr [0, 1, 1, 2, 3] \<and>
   fibonacci 10 = Inr [0, 1, 1, 2, 3, 5, 8, 13, 21, 34] \<and>
   fibonacci 15 = Inr [0, 1, 1, 2, 3, 5, 8, 13, 21, 34, 55, 89, 144, 233, 377]"
proof -
  have "fibonacci 0 = Inr []" "fibonacci 1 = Inr [0]" "fibonacci 2 = Inr [0, 1]"
    by (simp_all add: fibonacci_def)
  moreover have "fibonacci 5 = Inr [0, 1, 1, 2, 3]" by code_simp
  moreover have "fibonacci 10 = Inr [0, 1, 1, 2, 3, 5, 8, 13, 21, 34]" by code_simp
  moreover have "fibonacci 15 = Inr [0, 1, 1, 2, 3, 5, 8, 13, 21, 34, 55, 89, 144, 233, 377]"
    by code_simp
  ultimately show ?thesis by (simp only: simp_thms)
qed

text \<open>
  C2: \<^verbatim>\<open>fibonacci(n)\<close> raises \<^verbatim>\<open>ValueError\<close> if and only if \<open>n\<close> is negative: for every
  \<open>n < 0\<close> the call raises \<^verbatim>\<open>ValueError\<close>, and for every \<open>n \<ge> 0\<close> it raises nothing
  (neither \<^verbatim>\<open>ValueError\<close> nor an \<^verbatim>\<open>IndexError\<close> from the subscripts of the loop).
\<close>

theorem fibonacci_raises_iff_negative:
  "(n < 0 \<longrightarrow> fibonacci n = Inl ValueError) \<and> (0 \<le> n \<longrightarrow> (\<forall>e. fibonacci n \<noteq> Inl e))"
proof (intro conjI impI)
  assume "n < 0"
  then show "fibonacci n = Inl ValueError" by (simp add: fibonacci_def)
next
  assume "0 \<le> n"
  then consider "n = 0" | "n = 1" | "2 \<le> n" by arith
  then show "\<forall>e. fibonacci n \<noteq> Inl e"
  proof cases
    case 3
    then obtain fs where "fibonacci n = Inr fs" using fibonacci_fib_inv by blast
    then show ?thesis by simp
  qed (simp_all add: fibonacci_def)
qed

theorem fibonacci_raises_iff_negative_witness:
  "(-1 :: int) < 0 \<and> fibonacci (-1) = Inl ValueError \<and>
   (0 :: int) \<le> 7 \<and> (\<forall>e. fibonacci 7 \<noteq> Inl e)"
  using fibonacci_raises_iff_negative [of "-1"] fibonacci_raises_iff_negative [of 7]
  by simp

text \<open>
  C3: for every \<open>n \<ge> 0\<close>, \<^verbatim>\<open>fibonacci(n)\<close> returns a list of length exactly \<open>n\<close> whose
  element at index 0 is 0 (when \<open>n \<ge> 1\<close>), whose element at index 1 is 1 (when
  \<open>n \<ge> 2\<close>), and in which every element at an index \<open>i \<ge> 2\<close> is the sum of the elements
  at the indices \<open>i - 1\<close> and \<open>i - 2\<close>.
\<close>

theorem fibonacci_recurrence:
  assumes "0 \<le> n"
  shows "\<exists>xs. fibonacci n = Inr xs \<and> int (length xs) = n \<and>
           (1 \<le> n \<longrightarrow> xs ! 0 = 0) \<and> (2 \<le> n \<longrightarrow> xs ! 1 = 1) \<and>
           (\<forall>i. 2 \<le> i \<and> i < length xs \<longrightarrow> xs ! i = xs ! (i - 1) + xs ! (i - 2))"
proof -
  from assms consider "n = 0" | "n = 1" | "2 \<le> n" by arith
  then show ?thesis
  proof cases
    case 3
    then obtain fs where "fibonacci n = Inr fs" "fib_inv n fs" using fibonacci_fib_inv by blast
    then show ?thesis by (simp add: fib_inv_def)
  qed (simp_all add: fibonacci_def)
qed

theorem fibonacci_recurrence_witness:
  "(0 :: int) \<le> 6 \<and>
   (\<exists>xs. fibonacci 6 = Inr xs \<and> length xs = 6 \<and> xs ! 0 = 0 \<and> xs ! 1 = 1 \<and>
      xs ! 2 = xs ! 1 + xs ! 0 \<and> xs ! 5 = xs ! 4 + xs ! 3)"
proof -
  from fibonacci_recurrence [of 6] obtain xs where xs: "fibonacci 6 = Inr xs"
    "int (length xs) = 6" "xs ! 0 = 0" "xs ! 1 = 1"
    "\<forall>i. 2 \<le> i \<and> i < length xs \<longrightarrow> xs ! i = xs ! (i - 1) + xs ! (i - 2)"
    by auto
  from xs(2) have len: "length xs = 6" by simp
  from xs(5) len have "xs ! 2 = xs ! (2 - 1) + xs ! (2 - 2)" "xs ! 5 = xs ! (5 - 1) + xs ! (5 - 2)"
    by simp_all
  with xs len show ?thesis by simp
qed

text \<open>
  C4: under the precondition \<open>n \<ge> 0\<close>, \<^verbatim>\<open>fibonacci(n)\<close> never reaches its error branch:
  the \<^verbatim>\<open>raise ValueError\<close> is not taken and the call returns a list, so the function is
  total on the non-negative integers.
\<close>

theorem fibonacci_total_on_nonneg:
  assumes "0 \<le> n"
  shows "fibonacci n \<noteq> Inl ValueError \<and> (\<exists>xs. fibonacci n = Inr xs)"
proof -
  from assms consider "n = 0" | "n = 1" | "2 \<le> n" by arith
  then show ?thesis
  proof cases
    case 3
    then obtain fs where "fibonacci n = Inr fs" using fibonacci_fib_inv by blast
    then show ?thesis by simp
  qed (simp_all add: fibonacci_def)
qed

theorem fibonacci_total_on_nonneg_witness:
  "(0 :: int) \<le> 4 \<and> fibonacci 4 \<noteq> Inl ValueError \<and> (\<exists>xs. fibonacci 4 = Inr xs)"
  using fibonacci_total_on_nonneg [of 4] by simp

text \<open>
  C5: for every \<open>n \<ge> 0\<close>, \<^verbatim>\<open>fibonacci(n)\<close> is a prefix of \<^verbatim>\<open>fibonacci(n + 1)\<close>: asking
  for one more number appends exactly one element and leaves the first \<open>n\<close> elements
  unchanged.
\<close>

theorem fibonacci_prefix:
  assumes "0 \<le> n"
  shows "\<exists>xs x. fibonacci n = Inr xs \<and> fibonacci (n + 1) = Inr (xs @ [x])"
proof -
  from assms consider "n = 0" | "n = 1" | "2 \<le> n" by arith
  then show ?thesis
  proof cases
    case 3
    then obtain fs where fs: "for_loop (range_py 2 n) [0, 1] = Inr fs" "fib_inv n fs"
      using for_loop_fib_inv by blast
    with 3 have "for_loop (range_py 2 (n + 1)) [0, 1]
        = Inr (fs @ [fs ! (length fs - 1) + fs ! (length fs - 2)])"
      by (simp add: for_loop_step)
    with 3 fs(1) show ?thesis by (simp add: fibonacci_ge2)
  qed (simp_all add: fibonacci_def)
qed

theorem fibonacci_prefix_witness:
  "(0 :: int) \<le> 9 \<and> (\<exists>xs x. fibonacci 9 = Inr xs \<and> fibonacci 10 = Inr (xs @ [x]))"
  using fibonacci_prefix [of 9] by simp

end
